theory Spec2Isabelle
  imports Main "HOL-Library.Sublist"
begin

section \<open>Data model of \<open>lib/student-slice.ts\<close>\<close>

text \<open>
  The interface \<open>Students\<close>: every property is optional, so every field is an option
  (\<open>None\<close> is a property that is absent, read as \<open>undefined\<close>). The property \<open>_id\<close> is
  named \<open>student_id\<close> here, since an identifier cannot start with an underscore. A string is
  a list of characters with the codes 0 to 255, the Basic Latin and Latin-1 Supplement
  blocks, each character one code unit; \<open>contactNumber\<close> is a number that no reducer
  computes with.
  An object that holds a property with the value \<open>undefined\<close> written into it is not
  represented: every property is either absent or holds a value of its declared type.
\<close>

record Students =
  student_id :: "string option"
  firstName :: "string option"
  middleName :: "string option"
  lastName :: "string option"
  email :: "string option"
  contactNumber :: "int option"
  gender :: "string option"
  collegeName :: "string option"
  department :: "string option"
  hobbies :: "string option"
  dob :: "string option"

text \<open>The interface \<open>StudentState\<close>; \<open>null\<close> and \<open>undefined\<close> of \<open>currentStudent\<close> are \<open>None\<close>.\<close>

record StudentState =
  filteredstudents :: "Students list"
  allstudents :: "Students list"
  currentStudent :: "Students option"

text \<open>
  \<open>initialState\<close>. The seed \<open>dummyData\<close> is imported from a module outside the sources at
  hand, so it is a parameter.
\<close>

definition initialState :: "Students list \<Rightarrow> StudentState" where
  "initialState dummyData =
     \<lparr>filteredstudents = dummyData, allstudents = dummyData, currentStudent = None\<rparr>"

section \<open>The JavaScript operations the reducers call\<close>

text \<open>Calling a method on \<open>undefined\<close> throws a \<open>TypeError\<close>.\<close>

datatype error = TypeError

text \<open>
  \<open>String.prototype.toLowerCase\<close> on the characters with the codes 0 to 255. There it works
  character by character: the capital letters \<open>A\<close> to \<open>Z\<close> (codes 65 to 90) and the capital
  letters of Latin-1 (codes 192 to 222, without the multiplication sign 215) move 32 codes
  up to their small letters, and every other character stays: digits, signs, the small
  letters, the sharp s (223) and the micro sign (181).
\<close>

definition toLowerChar :: "char \<Rightarrow> char" where
  "toLowerChar c =
     (let n = (of_char c :: nat) in
      if (65 \<le> n \<and> n \<le> 90) \<or> (192 \<le> n \<and> n \<le> 222 \<and> n \<noteq> 215)
      then char_of (n + 32) else c)"

definition toLowerCase :: "string \<Rightarrow> string" where
  "toLowerCase s = map toLowerChar s"

text \<open>\<open>s.includes(t)\<close>: \<open>t\<close> occurs in \<open>s\<close> at some position, as a contiguous run.\<close>

fun string_includes :: "string \<Rightarrow> string \<Rightarrow> bool" where
  "string_includes [] t = (t = [])"
| "string_includes (c # s) t = (prefix t (c # s) \<or> string_includes s t)"

text \<open>
  \<open>Array.prototype.some\<close> and \<open>Array.prototype.filter\<close> with a callback that may throw:
  the elements are visited from the left, \<open>some\<close> stops at the first element the callback
  accepts, and an exception of the callback ends the whole call.
\<close>

fun array_some :: "('a \<Rightarrow> error + bool) \<Rightarrow> 'a list \<Rightarrow> error + bool" where
  "array_some p [] = Inr False"
| "array_some p (x # xs) =
     (case p x of
        Inl e \<Rightarrow> Inl e
      | Inr b \<Rightarrow> if b then Inr True else array_some p xs)"

fun array_filter :: "('a \<Rightarrow> error + bool) \<Rightarrow> 'a list \<Rightarrow> error + 'a list" where
  "array_filter p [] = Inr []"
| "array_filter p (x # xs) =
     (case p x of
        Inl e \<Rightarrow> Inl e
      | Inr b \<Rightarrow>
          (case array_filter p xs of
             Inl e \<Rightarrow> Inl e
           | Inr ys \<Rightarrow> Inr (if b then x # ys else ys)))"

text \<open>
  The object literal \<open>{ _id: i, ...payload }\<close>: the properties of \<open>payload\<close> are copied
  after \<open>_id: i\<close> is written, so an \<open>_id\<close> of the payload replaces \<open>i\<close>.
\<close>

definition spread_id :: "string \<Rightarrow> Students \<Rightarrow> Students" where
  "spread_id i payload =
     (case student_id payload of
        None \<Rightarrow> payload\<lparr>student_id := Some i\<rparr>
      | Some j \<Rightarrow> payload)"

section \<open>The reducers of \<open>studentSlice\<close>\<close>

text \<open>
  The three property names of \<open>searchStudents\<close>, each as the selector that reads it:
  \<open>student[field]\<close> is \<open>field student\<close>.
\<close>

definition searchFields :: "(Students \<Rightarrow> string option) list" where
  "searchFields = [firstName, lastName, collegeName]"

text \<open>
  The callback of \<open>some\<close>: \<open>(student[field] as string).toLowerCase().includes(searchTerm)\<close>.
  The cast does nothing at run time, so an absent property throws.
\<close>

definition fieldIncludes :: "string \<Rightarrow> Students \<Rightarrow> (Students \<Rightarrow> string option) \<Rightarrow> error + bool" where
  "fieldIncludes searchTerm student field =
     (case field student of
        None \<Rightarrow> Inl TypeError
      | Some v \<Rightarrow> Inr (string_includes (toLowerCase v) searchTerm))"

definition searchStudents :: "string \<Rightarrow> StudentState \<Rightarrow> error + StudentState" where
  "searchStudents payload state =
     (let searchTerm = toLowerCase payload in
      case array_filter (\<lambda>student. array_some (fieldIncludes searchTerm student) searchFields)
             (allstudents state) of
        Inl e \<Rightarrow> Inl e
      | Inr filterStudents \<Rightarrow> Inr (state\<lparr>filteredstudents := filterStudents\<rparr>))"

definition selectedStudent :: "string \<Rightarrow> StudentState \<Rightarrow> StudentState" where
  "selectedStudent studentId state =
     state\<lparr>currentStudent :=
       find (\<lambda>student. student_id student = Some studentId) (allstudents state)\<rparr>"

definition clearSelectedStudent :: "StudentState \<Rightarrow> StudentState" where
  "clearSelectedStudent state = state\<lparr>currentStudent := None\<rparr>"

text \<open>
  \<open>addNewStudent\<close>. The result of \<open>uuidv4()\<close> comes from a library outside the sources, so
  the token it returns for this call is the parameter \<open>studentUuid\<close>.
\<close>

definition addNewStudent :: "string \<Rightarrow> Students \<Rightarrow> StudentState \<Rightarrow> StudentState" where
  "addNewStudent studentUuid payload state =
     (let newStudent = spread_id studentUuid payload in
      state\<lparr>allstudents := allstudents state @ [newStudent],
            filteredstudents := filteredstudents state @ [newStudent]\<rparr>)"

definition updateStudentList :: "Students list \<Rightarrow> string \<Rightarrow> Students \<Rightarrow> Students list" where
  "updateStudentList students i updatedStudent =
     map (\<lambda>student. if student_id student = Some i then spread_id i updatedStudent else student)
       students"

definition saveEditedStudent :: "string \<Rightarrow> Students \<Rightarrow> StudentState \<Rightarrow> StudentState" where
  "saveEditedStudent i student state =
     state\<lparr>allstudents := updateStudentList (allstudents state) i student,
           filteredstudents := updateStudentList (filteredstudents state) i student\<rparr>"

definition deleteStudent :: "string \<Rightarrow> StudentState \<Rightarrow> StudentState" where
  "deleteStudent studentId state =
     state\<lparr>allstudents := filter (\<lambda>student. student_id student \<noteq> Some studentId) (allstudents state),
           filteredstudents :=
             filter (\<lambda>student. student_id student \<noteq> Some studentId) (filteredstudents state)\<rparr>"

section \<open>Actions and the store\<close>

text \<open>
  The six actions of the slice. \<open>AddNewStudent\<close> carries the token that \<open>uuidv4()\<close> returns
  during that call.
\<close>

datatype action =
    SearchStudents string
  | SelectedStudent string
  | ClearSelectedStudent
  | AddNewStudent string Students
  | SaveEditedStudent string Students
  | DeleteStudent string

fun reducer :: "action \<Rightarrow> StudentState \<Rightarrow> error + StudentState" where
  "reducer (SearchStudents t) state = searchStudents t state"
| "reducer (SelectedStudent i) state = Inr (selectedStudent i state)"
| "reducer ClearSelectedStudent state = Inr (clearSelectedStudent state)"
| "reducer (AddNewStudent u p) state = Inr (addNewStudent u p state)"
| "reducer (SaveEditedStudent i p) state = Inr (saveEditedStudent i p state)"
| "reducer (DeleteStudent i) state = Inr (deleteStudent i state)"

text \<open>
  One dispatch: a reducer that throws leaves the store's state as it was, and the exception
  goes to the caller.
\<close>

definition dispatch :: "action \<Rightarrow> StudentState \<Rightarrow> StudentState" where
  "dispatch a state = (case reducer a state of Inl e \<Rightarrow> state | Inr state' \<Rightarrow> state')"

fun run :: "action list \<Rightarrow> StudentState \<Rightarrow> StudentState" where
  "run [] state = state"
| "run (a # as) state = run as (dispatch a state)"

section \<open>Notions of the specification\<close>

text \<open>
  A field contains a term as a case-insensitive substring: the term, in small letters, is a
  contiguous run of the field's value in small letters. An absent field contains nothing.
\<close>

definition fieldContains :: "string option \<Rightarrow> string \<Rightarrow> bool" where
  "fieldContains field term =
     (case field of
        None \<Rightarrow> False
      | Some v \<Rightarrow> sublist (toLowerCase term) (toLowerCase v))"

text \<open>A record matches a term: at least one of the three searched fields contains it.\<close>

definition matchesTerm :: "string \<Rightarrow> Students \<Rightarrow> bool" where
  "matchesTerm term r =
     (fieldContains (firstName r) term \<or> fieldContains (lastName r) term
        \<or> fieldContains (collegeName r) term)"

text \<open>A record on which the search reads no absent property.\<close>

definition hasSearchFields :: "Students \<Rightarrow> bool" where
  "hasSearchFields r = (firstName r \<noteq> None \<and> lastName r \<noteq> None \<and> collegeName r \<noteq> None)"

text \<open>The id values of a collection, in order; a record without \<open>_id\<close> contributes none.\<close>

definition ids :: "Students list \<Rightarrow> string list" where
  "ids students = List.map_filter student_id students"

text \<open>A sequence of \<open>add\<close> calls, each with the token generated for it and its payload.\<close>

definition addCalls :: "(string \<times> Students) list \<Rightarrow> action list" where
  "addCalls calls = map (\<lambda>(u, p). AddNewStudent u p) calls"

section \<open>Example data\<close>

definition noFields :: Students where
  "noFields =
     \<lparr>student_id = None, firstName = None, middleName = None, lastName = None, email = None,
      contactNumber = None, gender = None, collegeName = None, department = None,
      hobbies = None, dob = None\<rparr>"

definition ann :: Students where
  "ann = noFields\<lparr>student_id := Some ''1'', firstName := Some ''Ann'', lastName := Some ''Lee'',
           collegeName := Some ''X''\<rparr>"

definition bo :: Students where
  "bo = noFields\<lparr>firstName := Some ''Bo'', lastName := Some ''Li'', collegeName := Some ''Y''\<rparr>"

definition annie :: Students where
  "annie = noFields\<lparr>firstName := Some ''Annie''\<rparr>"

definition annNoLastName :: Students where
  "annNoLastName = ann\<lparr>lastName := None\<rparr>"

text \<open>The store seeded with \<open>ann\<close>, after a search for \<open>zz\<close>, and with \<open>ann\<close> selected.\<close>

definition searchedZz :: StudentState where
  "searchedZz = \<lparr>filteredstudents = [], allstudents = [ann], currentStudent = None\<rparr>"

definition annSelected :: StudentState where
  "annSelected = \<lparr>filteredstudents = [ann], allstudents = [ann], currentStudent = Some ann\<rparr>"

text \<open>
  The store seeded with \<open>ann\<close> after a search for \<open>zz\<close> and the addition of the empty
  payload under the token \<open>u2\<close>.
\<close>

definition addedNoFields :: StudentState where
  "addedNoFields =
     \<lparr>filteredstudents = [noFields\<lparr>student_id := Some ''u2''\<rparr>],
      allstudents = [ann, noFields\<lparr>student_id := Some ''u2''\<rparr>], currentStudent = None\<rparr>"


section \<open>Facts about the JavaScript operations\<close>

text \<open>The character with a given code, bit by bit, for the evaluation of \<open>toLowerChar\<close>.\<close>

lemma char_of_nat_bits:
  "char_of (n::nat) = Char (odd n) (odd (n div 2)) (odd (n div 4)) (odd (n div 8))
      (odd (n div 16)) (odd (n div 32)) (odd (n div 64)) (odd (n div 128))"
  by (simp add: char_of_def bit_iff_odd)

lemma of_char_toLowerChar:
  "of_char (toLowerChar c) =
     (let n = (of_char c :: nat) in
      if (65 \<le> n \<and> n \<le> 90) \<or> (192 \<le> n \<and> n \<le> 222 \<and> n \<noteq> 215) then n + 32 else n)"
proof -
  have "(of_char c :: nat) < 256" by (cases c) simp
  then show ?thesis by (auto simp: toLowerChar_def Let_def)
qed

lemma toLowerCase_capitals:
  "toLowerCase ''ABCDEFGHIJKLMNOPQRSTUVWXYZ'' = ''abcdefghijklmnopqrstuvwxyz''"
  by (simp add: toLowerCase_def toLowerChar_def char_of_nat_bits)

lemma toLowerCase_small_digits_signs:
  "toLowerCase ''abcdefghijklmnopqrstuvwxyz0123456789 @[-_.{}'' =
     ''abcdefghijklmnopqrstuvwxyz0123456789 @[-_.{}''"
  by (simp add: toLowerCase_def toLowerChar_def char_of_nat_bits)

lemma toLowerCase_latin1:
  "toLowerCase [CHR 0xC0, CHR 0xC9, CHR 0xD6, CHR 0xD7, CHR 0xD8, CHR 0xDE, CHR 0xDF, CHR 0xB5,
      CHR 0xE9, CHR 0xFF]
     = [CHR 0xE0, CHR 0xE9, CHR 0xF6, CHR 0xD7, CHR 0xF8, CHR 0xFE, CHR 0xDF, CHR 0xB5,
        CHR 0xE9, CHR 0xFF]"
  by (simp add: toLowerCase_def toLowerChar_def char_of_nat_bits)

lemma toLowerCase_idem: "toLowerCase (toLowerCase s) = toLowerCase s"
proof -
  have "toLowerChar (toLowerChar c) = toLowerChar c" for c
  proof -
    have "(of_char (toLowerChar (toLowerChar c)) :: nat) = of_char (toLowerChar c)"
      by (simp add: of_char_toLowerChar [of "toLowerChar c"] of_char_toLowerChar [of c] Let_def)
    then show ?thesis by simp
  qed
  then show ?thesis by (simp add: toLowerCase_def)
qed


lemma string_includes_sublist: "string_includes s t = sublist t s"
  by (induction s) (auto simp: sublist_Cons_right)

lemma array_some_Inr: "array_some p xs = Inr b \<Longrightarrow> b = (\<exists>x\<in>set xs. p x = Inr True)"
  by (induction xs) (auto split: sum.splits if_splits)

lemma array_some_Inl: "array_some p xs = Inl e \<Longrightarrow> \<exists>x\<in>set xs. p x = Inl e"
  by (induction xs) (auto split: sum.splits if_splits)

lemma array_filter_Inr:
  "array_filter p xs = Inr ys \<Longrightarrow> ys = filter (\<lambda>x. p x = Inr True) xs"
  by (induction xs arbitrary: ys) (auto split: sum.splits if_splits)

lemma array_filter_Inr_callback:
  "array_filter p xs = Inr ys \<Longrightarrow> x \<in> set xs \<Longrightarrow> \<exists>b. p x = Inr b"
  by (induction xs arbitrary: ys) (auto split: sum.splits)

lemma array_filter_total:
  "\<forall>x\<in>set xs. \<exists>b. p x = Inr b \<Longrightarrow> \<exists>ys. array_filter p xs = Inr ys"
  by (induction xs) (auto split: sum.splits)

lemma array_filter_Inl: "array_filter p xs = Inl e \<Longrightarrow> \<exists>x\<in>set xs. p x = Inl e"
  by (induction xs) (auto split: sum.splits if_splits)

lemma fieldIncludes_Inr_True:
  "fieldIncludes (toLowerCase term) r field = Inr True \<longleftrightarrow> fieldContains (field r) term"
  by (simp add: fieldIncludes_def fieldContains_def string_includes_sublist split: option.splits)

lemma fieldIncludes_Inl:
  "fieldIncludes t r field = Inl e \<longleftrightarrow> field r = None"
  by (cases e) (simp add: fieldIncludes_def split: option.splits)

lemma search_callback_Inr_True:
  "array_some (fieldIncludes (toLowerCase term) r) searchFields = Inr True \<Longrightarrow> matchesTerm term r"
  by (drule array_some_Inr) (auto simp: searchFields_def matchesTerm_def fieldIncludes_Inr_True)

lemma search_callback_Inr_False:
  "array_some (fieldIncludes (toLowerCase term) r) searchFields = Inr False \<Longrightarrow> \<not> matchesTerm term r"
  by (drule array_some_Inr) (auto simp: searchFields_def matchesTerm_def fieldIncludes_Inr_True)

lemma search_callback_Inl:
  "array_some (fieldIncludes t r) searchFields = Inl e \<Longrightarrow> \<not> hasSearchFields r"
  by (drule array_some_Inl) (auto simp: searchFields_def hasSearchFields_def fieldIncludes_Inl)

lemma search_callback_matches:
  "array_some (fieldIncludes (toLowerCase term) r) searchFields = Inr b \<Longrightarrow> b = matchesTerm term r"
  by (cases b) (auto dest: search_callback_Inr_True search_callback_Inr_False)

lemma searchStudents_Inr:
  assumes "searchStudents term s = Inr s'"
  shows "s' = s\<lparr>filteredstudents := filter (matchesTerm term) (allstudents s)\<rparr>"
proof -
  let ?p = "\<lambda>student. array_some (fieldIncludes (toLowerCase term) student) searchFields"
  from assms obtain ys where ys: "array_filter ?p (allstudents s) = Inr ys"
    and s': "s' = s\<lparr>filteredstudents := ys\<rparr>"
    by (auto simp: searchStudents_def split: sum.splits)
  from array_filter_Inr_callback [OF ys]
  have "\<forall>r\<in>set (allstudents s). \<exists>b. ?p r = Inr b"
    by blast
  then have "\<forall>r\<in>set (allstudents s). (?p r = Inr True) = matchesTerm term r"
    using search_callback_matches by fastforce
  then have "filter (\<lambda>x. ?p x = Inr True) (allstudents s) = filter (matchesTerm term) (allstudents s)"
    by (intro filter_cong) auto
  with array_filter_Inr [OF ys] s' show ?thesis by simp
qed

lemma searchStudents_Inl:
  "searchStudents term s = Inl e \<Longrightarrow> \<exists>r\<in>set (allstudents s). \<not> hasSearchFields r"
  by (auto simp: searchStudents_def split: sum.splits dest!: array_filter_Inl search_callback_Inl)

lemma fieldContains_empty_term: "fieldContains (Some v) []"
  by (simp add: fieldContains_def toLowerCase_def)

lemma search_callback_total:
  "hasSearchFields r \<Longrightarrow> \<exists>b. array_some (fieldIncludes t r) searchFields = Inr b"
  by (auto simp: hasSearchFields_def searchFields_def fieldIncludes_def)

lemma searchStudents_total:
  assumes "\<forall>r\<in>set (allstudents s). hasSearchFields r"
  shows "\<exists>s'. searchStudents term s = Inr s'"
proof (cases "searchStudents term s")
  case (Inl e)
  from searchStudents_Inl [OF this] assms show ?thesis by blast
next
  case (Inr s')
  then show ?thesis by blast
qed

lemma searchStudents_Inr_firstName:
  assumes "searchStudents term s = Inr s'" and "r \<in> set (allstudents s)"
  shows "firstName r \<noteq> None"
proof -
  let ?p = "\<lambda>student. array_some (fieldIncludes (toLowerCase term) student) searchFields"
  from assms(1) obtain ys where "array_filter ?p (allstudents s) = Inr ys"
    by (auto simp: searchStudents_def split: sum.splits)
  from array_filter_Inr_callback [OF this assms(2)] show ?thesis
    by (auto simp: searchFields_def fieldIncludes_def split: option.splits)
qed

lemma spread_id_no_id: "student_id p = None \<Longrightarrow> spread_id i p = p\<lparr>student_id := Some i\<rparr>"
  by (simp add: spread_id_def)

lemma spread_id_own_id: "student_id p = Some j \<Longrightarrow> spread_id i p = p"
  by (simp add: spread_id_def)

lemma updateStudentList_no_id:
  "student_id p = None \<Longrightarrow>
   updateStudentList students i p =
     map (\<lambda>r. if student_id r = Some i then p\<lparr>student_id := Some i\<rparr> else r) students"
  by (simp add: updateStudentList_def spread_id_no_id)

lemma updateStudentList_with_id:
  "student_id p = Some j \<Longrightarrow>
   updateStudentList students i p = map (\<lambda>r. if student_id r = Some i then p else r) students"
  by (simp add: updateStudentList_def spread_id_own_id)

lemma updateStudentList_absent:
  "Some i \<notin> student_id ` set students \<Longrightarrow> updateStudentList students i p = students"
  by (induction students) (auto simp: updateStudentList_def)

lemma filter_id_absent:
  "Some i \<notin> student_id ` set students \<Longrightarrow>
   filter (\<lambda>student. student_id student \<noteq> Some i) students = students"
  by (induction students) auto

lemma find_updateStudentList:
  assumes "student_id p = None" and "Some i \<in> student_id ` set students"
  shows "find (\<lambda>r. student_id r = Some i) (updateStudentList students i p)
           = Some (p\<lparr>student_id := Some i\<rparr>)"
  using assms(2)
  by (induction students) (auto simp: updateStudentList_no_id [OF assms(1)])

section \<open>The two views along a run of the store\<close>

lemma reducer_subseq:
  assumes "reducer a s = Inr s'" and "subseq (filteredstudents s) (allstudents s)"
  shows "subseq (filteredstudents s') (allstudents s')"
proof (cases a)
  case (SearchStudents t)
  with assms(1) have "searchStudents t s = Inr s'" by simp
  from searchStudents_Inr [OF this] show ?thesis by simp
next
  case (SelectedStudent i)
  with assms show ?thesis by (auto simp: selectedStudent_def)
next
  case ClearSelectedStudent
  with assms show ?thesis by (auto simp: clearSelectedStudent_def)
next
  case (AddNewStudent u p)
  with assms show ?thesis by (auto simp: addNewStudent_def Let_def)
next
  case (SaveEditedStudent i p)
  with assms show ?thesis
    by (auto simp: saveEditedStudent_def updateStudentList_def intro: subseq_map)
next
  case (DeleteStudent i)
  with assms show ?thesis by (auto simp: deleteStudent_def)
qed

lemma dispatch_subseq:
  "subseq (filteredstudents s) (allstudents s) \<Longrightarrow>
   subseq (filteredstudents (dispatch a s)) (allstudents (dispatch a s))"
  by (cases "reducer a s") (auto simp: dispatch_def dest: reducer_subseq)

lemma run_subseq:
  "subseq (filteredstudents s) (allstudents s) \<Longrightarrow>
   subseq (filteredstudents (run as s)) (allstudents (run as s))"
  by (induction as arbitrary: s) (auto intro: dispatch_subseq)

lemma initialState_subseq:
  "subseq (filteredstudents (initialState d)) (allstudents (initialState d))"
  by (simp add: initialState_def)

lemma subseq_set_mono: "subseq xs ys \<Longrightarrow> set xs \<subseteq> set ys"
  by (auto elim: list_emb_set)

lemma reachable_filtered_subset:
  "set (filteredstudents (run acts (initialState d)))
     \<subseteq> set (allstudents (run acts (initialState d)))"
  by (rule subseq_set_mono [OF run_subseq [OF initialState_subseq]])

lemma saveEditedStudent_absent:
  assumes "Some i \<notin> student_id ` set (allstudents s)"
    and "set (filteredstudents s) \<subseteq> set (allstudents s)"
  shows "saveEditedStudent i p s = s"
proof -
  from assms have "Some i \<notin> student_id ` set (filteredstudents s)" by blast
  with assms(1) show ?thesis
    by (simp add: saveEditedStudent_def updateStudentList_absent)
qed

lemma deleteStudent_absent:
  assumes "Some i \<notin> student_id ` set (allstudents s)"
    and "set (filteredstudents s) \<subseteq> set (allstudents s)"
  shows "deleteStudent i s = s"
proof -
  from assms have "Some i \<notin> student_id ` set (filteredstudents s)" by blast
  with assms(1) show ?thesis
    by (simp add: deleteStudent_def filter_id_absent)
qed

section \<open>Id values along a sequence of additions\<close>




section \<open>Evaluation of the examples\<close>

lemmas example_defs =
  ann_def bo_def annie_def annNoLastName_def noFields_def searchedZz_def annSelected_def
  addedNoFields_def initialState_def

lemmas lower_defs = toLowerCase_def toLowerChar_def char_of_nat_bits

lemmas reducer_defs =
  searchStudents_def searchFields_def fieldIncludes_def selectedStudent_def clearSelectedStudent_def addNewStudent_def saveEditedStudent_def
  updateStudentList_def deleteStudent_def spread_id_def dispatch_def Let_def

lemmas spec_defs =
  matchesTerm_def fieldContains_def hasSearchFields_def sublist_code(3) ids_def map_filter_def
  addCalls_def

section \<open>Search\<close>

text \<open>
  A search that completes leaves \<open>allstudents\<close> and \<open>currentStudent\<close> alone and makes
  \<open>filteredstudents\<close> the records of \<open>allstudents\<close>, in order, that match the term; the
  empty term then gives the whole collection. It completes in every state whose records all
  carry the three searched fields.
\<close>

lemma searchStudents_completed_filter:
  "(searchStudents term s = Inr s' \<longrightarrow>
      (\<forall>r. r \<in> set (filteredstudents s') \<longleftrightarrow> r \<in> set (allstudents s) \<and> matchesTerm term r)
      \<and> filteredstudents s' = filter (matchesTerm term) (allstudents s)
      \<and> allstudents s' = allstudents s \<and> currentStudent s' = currentStudent s
      \<and> (term = [] \<longrightarrow> filteredstudents s' = allstudents s))
   \<and> ((\<forall>r\<in>set (allstudents s). hasSearchFields r) \<longrightarrow> (\<exists>s1. searchStudents term s = Inr s1))"
proof (intro conjI impI)
  assume "\<forall>r\<in>set (allstudents s). hasSearchFields r"
  then show "\<exists>s1. searchStudents term s = Inr s1" by (rule searchStudents_total)
next
  assume completes: "searchStudents term s = Inr s'"
  note s' = searchStudents_Inr [OF completes]
  show "\<forall>r. r \<in> set (filteredstudents s') \<longleftrightarrow> r \<in> set (allstudents s) \<and> matchesTerm term r"
    by (simp add: s')
  show "filteredstudents s' = filter (matchesTerm term) (allstudents s)"
    by (simp add: s')
  show "allstudents s' = allstudents s" by (simp add: s')
  show "currentStudent s' = currentStudent s" by (simp add: s')
  assume "term = []"
  with completes have "\<forall>r\<in>set (allstudents s). matchesTerm term r"
    by (auto simp: matchesTerm_def fieldContains_empty_term dest: searchStudents_Inr_firstName)
  then show "filteredstudents s' = allstudents s"
    by (simp add: s')
qed

text \<open>
  Claim C1. The claim is about every state, and the search does not complete in every
  state. Seed the store with \<open>ann\<close>, search for \<open>zz\<close> and add the empty payload: the new
  record has no \<open>firstName\<close>. The search with the empty term then calls \<open>toLowerCase\<close> on the
  absent \<open>firstName\<close> and ends with a \<open>TypeError\<close>, and the store keeps its state. So after
  the search with the empty term the filtered view is not the whole collection: \<open>ann\<close> is in
  \<open>allstudents\<close> and matches the empty term, and is not in \<open>filteredstudents\<close>.
\<close>

theorem search_empty_term_throws:
  "dispatch (AddNewStudent ''u2'' noFields) (dispatch (SearchStudents ''zz'') (initialState [ann]))
     = addedNoFields
   \<and> searchStudents [] addedNoFields = Inl TypeError
   \<and> dispatch (SearchStudents []) addedNoFields = addedNoFields
   \<and> filteredstudents addedNoFields \<noteq> allstudents addedNoFields
   \<and> ann \<in> set (allstudents addedNoFields) \<and> matchesTerm [] ann
   \<and> ann \<notin> set (filteredstudents addedNoFields)"
proof -
  have "dispatch (AddNewStudent ''u2'' noFields)
          (dispatch (SearchStudents ''zz'') (initialState [ann])) = addedNoFields"
    by (simp add: example_defs reducer_defs lower_defs)
  moreover have "searchStudents [] addedNoFields = Inl TypeError"
    by (simp add: example_defs reducer_defs lower_defs)
  moreover have "dispatch (SearchStudents []) addedNoFields = addedNoFields"
    by (simp add: example_defs reducer_defs lower_defs)
  moreover have "filteredstudents addedNoFields \<noteq> allstudents addedNoFields"
    by (simp add: addedNoFields_def)
  moreover have "ann \<in> set (allstudents addedNoFields)"
    by (simp add: addedNoFields_def)
  moreover have "matchesTerm [] ann"
    by (simp add: matchesTerm_def ann_def fieldContains_empty_term)
  moreover have "ann \<notin> set (filteredstudents addedNoFields)"
    by (simp add: example_defs)
  ultimately show ?thesis by blast
qed

text \<open>
  Claim C4. The search does not treat an absent field as the empty string: it calls
  \<open>toLowerCase\<close> on the absent value. With the record \<open>ann\<close> without its \<open>lastName\<close> and the
  term \<open>zz\<close>, \<open>firstName\<close> does not contain the term, \<open>lastName\<close> is read next, and the search
  ends with a \<open>TypeError\<close>; the store keeps its state.
\<close>

theorem search_missing_field_throws:
  "searchStudents ''zz'' (initialState [annNoLastName]) = Inl TypeError
   \<and> dispatch (SearchStudents ''zz'') (initialState [annNoLastName]) = initialState [annNoLastName]"
  by (simp add: example_defs reducer_defs lower_defs)

section \<open>Adding a record\<close>

text \<open>
  Claim C2, as the code has it. The store keeps no search term, and \<open>addNewStudent\<close> appends
  the record \<open>{ _id: uuid, ...payload }\<close> to the end of both \<open>allstudents\<close> and
  \<open>filteredstudents\<close>, whatever the last search was; for a payload without \<open>_id\<close> that record
  is the payload with the generated token as its id. After a search that completed, the
  filtered view is the matches of that search followed by the new record.
\<close>

theorem addNewStudent_appends_both:
  "allstudents (addNewStudent u p s) = allstudents s @ [spread_id u p]
   \<and> filteredstudents (addNewStudent u p s) = filteredstudents s @ [spread_id u p]
   \<and> currentStudent (addNewStudent u p s) = currentStudent s
   \<and> (student_id p = None \<longrightarrow> spread_id u p = p\<lparr>student_id := Some u\<rparr>)
   \<and> (searchStudents term s0 = Inr s \<longrightarrow>
        filteredstudents (addNewStudent u p s)
          = filter (matchesTerm term) (allstudents s0) @ [spread_id u p])"
proof (intro conjI impI)
  assume "searchStudents term s0 = Inr s"
  from searchStudents_Inr [OF this]
  show "filteredstudents (addNewStudent u p s)
          = filter (matchesTerm term) (allstudents s0) @ [spread_id u p]"
    by (simp add: addNewStudent_def Let_def)
qed (simp_all add: addNewStudent_def Let_def spread_id_no_id)

theorem addNewStudent_appends_both_witness:
  "student_id bo = None
   \<and> searchStudents ''zz'' (initialState [ann]) = Inr searchedZz
   \<and> filter (matchesTerm ''zz'') (allstudents (initialState [ann])) = []
   \<and> allstudents (addNewStudent ''u2'' bo searchedZz) = [ann, bo\<lparr>student_id := Some ''u2''\<rparr>]
   \<and> filteredstudents (addNewStudent ''u2'' bo searchedZz) = [bo\<lparr>student_id := Some ''u2''\<rparr>]"
proof -
  have h: "student_id bo = None" by (simp add: example_defs)
  have completes: "searchStudents ''zz'' (initialState [ann]) = Inr searchedZz"
    by (simp add: example_defs reducer_defs lower_defs)
  have none: "filter (matchesTerm ''zz'') (allstudents (initialState [ann])) = []"
    by (simp add: example_defs spec_defs lower_defs)
  note add = addNewStudent_appends_both [of "''u2''" bo searchedZz "''zz''" "initialState [ann]"]
  from add h have new: "spread_id ''u2'' bo = bo\<lparr>student_id := Some ''u2''\<rparr>"
    by blast
  from add have "allstudents (addNewStudent ''u2'' bo searchedZz)
          = allstudents searchedZz @ [spread_id ''u2'' bo]"
    by blast
  then have all: "allstudents (addNewStudent ''u2'' bo searchedZz)
          = [ann, bo\<lparr>student_id := Some ''u2''\<rparr>]"
    by (simp add: new searchedZz_def)
  from add completes have "filteredstudents (addNewStudent ''u2'' bo searchedZz)
          = filter (matchesTerm ''zz'') (allstudents (initialState [ann])) @ [spread_id ''u2'' bo]"
    by blast
  then have "filteredstudents (addNewStudent ''u2'' bo searchedZz)
          = [bo\<lparr>student_id := Some ''u2''\<rparr>]"
    by (simp only: none new append_Nil)
  with all
  show ?thesis using h completes none by blast
qed

text \<open>
  The claim as written fails: after a search for \<open>zz\<close> the filtered view is empty, the record
  made from \<open>bo\<close> does not match \<open>zz\<close>, and adding it changes the filtered view all the same.
\<close>

theorem add_after_search_counterexample:
  "searchStudents ''zz'' (initialState [ann]) = Inr searchedZz
   \<and> student_id bo = None
   \<and> \<not> matchesTerm ''zz'' (spread_id ''u2'' bo)
   \<and> filteredstudents (addNewStudent ''u2'' bo searchedZz) \<noteq> filteredstudents searchedZz"
proof -
  have "searchStudents ''zz'' (initialState [ann]) = Inr searchedZz"
    by (simp add: example_defs reducer_defs lower_defs)
  moreover have "student_id bo = None" by (simp add: example_defs)
  moreover have "\<not> matchesTerm ''zz'' (spread_id ''u2'' bo)"
    by (simp add: example_defs spec_defs lower_defs spread_id_def)
  moreover have "filteredstudents (addNewStudent ''u2'' bo searchedZz) \<noteq> filteredstudents searchedZz"
    by (simp add: searchedZz_def addNewStudent_def Let_def)
  ultimately show ?thesis by blast
qed




section \<open>Editing a record\<close>

text \<open>
  Claim C5. For an input without \<open>_id\<close>, \<open>edit(id, input)\<close> replaces every record of
  \<open>allstudents\<close> and of \<open>filteredstudents\<close> that carries the id by \<open>{ _id: id, ...input }\<close>, which
  is the input with the id and nothing of the old record, and leaves the other records
  alone; a record with the id afterwards is that record, and there is one when the id was
  present. In every state the store reaches, an id that \<open>allstudents\<close> does not hold makes
  the edit leave the whole state as it was.
\<close>

theorem saveEditedStudent_replaces:
  assumes "student_id input = None"
  shows "allstudents (saveEditedStudent i input s) =
           map (\<lambda>r. if student_id r = Some i then input\<lparr>student_id := Some i\<rparr> else r)
             (allstudents s)
       \<and> filteredstudents (saveEditedStudent i input s) =
           map (\<lambda>r. if student_id r = Some i then input\<lparr>student_id := Some i\<rparr> else r)
             (filteredstudents s)
       \<and> (\<forall>r\<in>set (allstudents (saveEditedStudent i input s)).
            student_id r = Some i \<longrightarrow> r = input\<lparr>student_id := Some i\<rparr>)
       \<and> (Some i \<in> student_id ` set (allstudents s) \<longrightarrow>
            input\<lparr>student_id := Some i\<rparr> \<in> set (allstudents (saveEditedStudent i input s)))
       \<and> (Some i \<notin> student_id ` set (allstudents (run acts (initialState dummyData))) \<longrightarrow>
            saveEditedStudent i input (run acts (initialState dummyData))
              = run acts (initialState dummyData))"
proof (intro conjI impI)
  show "allstudents (saveEditedStudent i input s) =
           map (\<lambda>r. if student_id r = Some i then input\<lparr>student_id := Some i\<rparr> else r)
             (allstudents s)"
    using assms by (simp add: saveEditedStudent_def updateStudentList_no_id)
  then show "\<forall>r\<in>set (allstudents (saveEditedStudent i input s)).
            student_id r = Some i \<longrightarrow> r = input\<lparr>student_id := Some i\<rparr>"
    by auto
  show "filteredstudents (saveEditedStudent i input s) =
           map (\<lambda>r. if student_id r = Some i then input\<lparr>student_id := Some i\<rparr> else r)
             (filteredstudents s)"
    using assms by (simp add: saveEditedStudent_def updateStudentList_no_id)
next
  assume "Some i \<in> student_id ` set (allstudents s)"
  then show "input\<lparr>student_id := Some i\<rparr> \<in> set (allstudents (saveEditedStudent i input s))"
    using assms by (force simp: saveEditedStudent_def updateStudentList_no_id image_iff)
next
  assume "Some i \<notin> student_id ` set (allstudents (run acts (initialState dummyData)))"
  then show "saveEditedStudent i input (run acts (initialState dummyData))
              = run acts (initialState dummyData)"
    by (rule saveEditedStudent_absent [OF _ reachable_filtered_subset])
qed

theorem saveEditedStudent_replaces_witness:
  "student_id annie = None
   \<and> Some ''1'' \<in> student_id ` set (allstudents (initialState [ann]))
   \<and> lastName ann = Some ''Lee''
   \<and> allstudents (saveEditedStudent ''1'' annie (initialState [ann]))
       = [annie\<lparr>student_id := Some ''1''\<rparr>]
   \<and> lastName (annie\<lparr>student_id := Some ''1''\<rparr>) = None
   \<and> Some ''7'' \<notin> student_id ` set
        (allstudents (run [SearchStudents ''zz'', AddNewStudent ''u2'' bo] (initialState [ann])))
   \<and> saveEditedStudent ''7'' annie
        (run [SearchStudents ''zz'', AddNewStudent ''u2'' bo] (initialState [ann]))
       = run [SearchStudents ''zz'', AddNewStudent ''u2'' bo] (initialState [ann])"
proof -
  let ?acts = "[SearchStudents ''zz'', AddNewStudent ''u2'' bo]"
  have h: "student_id annie = None" by (simp add: example_defs)
  have present: "Some ''1'' \<in> student_id ` set (allstudents (initialState [ann]))"
    by (simp add: example_defs)
  have absent: "Some ''7'' \<notin> student_id ` set (allstudents (run ?acts (initialState [ann])))"
    by (simp add: example_defs reducer_defs lower_defs)
  have old: "lastName ann = Some ''Lee''" by (simp add: example_defs)
  have new: "lastName (annie\<lparr>student_id := Some ''1''\<rparr>) = None" by (simp add: example_defs)
  from saveEditedStudent_replaces [OF h, of "''1''" "initialState [ann]"]
  have "allstudents (saveEditedStudent ''1'' annie (initialState [ann]))
          = map (\<lambda>r. if student_id r = Some ''1'' then annie\<lparr>student_id := Some ''1''\<rparr> else r)
              (allstudents (initialState [ann]))"
    by blast
  then have replaced: "allstudents (saveEditedStudent ''1'' annie (initialState [ann]))
          = [annie\<lparr>student_id := Some ''1''\<rparr>]"
    by (simp add: initialState_def ann_def noFields_def)
  from saveEditedStudent_replaces [OF h, of "''7''" _ ?acts "[ann]"] absent
  have "saveEditedStudent ''7'' annie (run ?acts (initialState [ann]))
          = run ?acts (initialState [ann])"
    by blast
  with h present old new replaced absent show ?thesis by blast
qed

text \<open>
  Claim C3, as the code has it. The store keeps no search term and \<open>saveEditedStudent\<close>
  recomputes nothing: the filtered view after the edit is the filtered view before it, of the
  same length, with each record that carries the id replaced in place. After a search that
  completed, it is the replacement applied to the records that matched before the edit; the
  content after the edit plays no part in membership.
\<close>

theorem saveEditedStudent_filtered_in_place:
  "filteredstudents (saveEditedStudent i input s) = updateStudentList (filteredstudents s) i input
   \<and> length (filteredstudents (saveEditedStudent i input s)) = length (filteredstudents s)
   \<and> (searchStudents term s0 = Inr s \<longrightarrow>
        filteredstudents (saveEditedStudent i input s)
          = updateStudentList (filter (matchesTerm term) (allstudents s0)) i input)"
  by (auto simp: saveEditedStudent_def updateStudentList_def dest: searchStudents_Inr)

theorem saveEditedStudent_filtered_in_place_witness:
  "searchStudents ''an'' (initialState [ann]) = Inr (initialState [ann])
   \<and> filter (matchesTerm ''an'') (allstudents (initialState [ann])) = [ann]
   \<and> filteredstudents (saveEditedStudent ''1'' bo (initialState [ann])) = [spread_id ''1'' bo]"
proof -
  have completes: "searchStudents ''an'' (initialState [ann]) = Inr (initialState [ann])"
    by (simp add: example_defs reducer_defs lower_defs)
  have matches: "filter (matchesTerm ''an'') (allstudents (initialState [ann])) = [ann]"
    by (simp add: example_defs spec_defs lower_defs)
  from saveEditedStudent_filtered_in_place
         [of "''1''" bo "initialState [ann]" "''an''" "initialState [ann]"] completes
  have "filteredstudents (saveEditedStudent ''1'' bo (initialState [ann]))
          = updateStudentList (filter (matchesTerm ''an'') (allstudents (initialState [ann]))) ''1'' bo"
    by blast
  moreover have "updateStudentList [ann] ''1'' bo = [spread_id ''1'' bo]"
    by (simp add: updateStudentList_def ann_def noFields_def)
  ultimately have "filteredstudents (saveEditedStudent ''1'' bo (initialState [ann])) = [spread_id ''1'' bo]"
    by (simp only: matches)
  with completes matches show ?thesis by blast
qed

text \<open>
  The claim as written fails: after a search for \<open>an\<close> the record \<open>ann\<close> is in the filtered
  view; the edit of record \<open>1\<close> to the content of \<open>bo\<close> makes it stop matching \<open>an\<close>, and it
  is still in the filtered view, which the recomputation would leave empty.
\<close>

theorem edit_after_search_counterexample:
  "searchStudents ''an'' (initialState [ann]) = Inr (initialState [ann])
   \<and> student_id ann = Some ''1''
   \<and> \<not> matchesTerm ''an'' (spread_id ''1'' bo)
   \<and> filteredstudents (saveEditedStudent ''1'' bo (initialState [ann])) = [spread_id ''1'' bo]
   \<and> filter (matchesTerm ''an'') (allstudents (saveEditedStudent ''1'' bo (initialState [ann]))) = []"
proof -
  have "searchStudents ''an'' (initialState [ann]) = Inr (initialState [ann])"
    by (simp add: example_defs reducer_defs lower_defs)
  moreover have "student_id ann = Some ''1''" by (simp add: example_defs)
  moreover have no_match: "\<not> matchesTerm ''an'' (spread_id ''1'' bo)"
    by (simp add: example_defs spec_defs lower_defs spread_id_def)
  moreover have "filteredstudents (saveEditedStudent ''1'' bo (initialState [ann])) = [spread_id ''1'' bo]"
    by (simp add: initialState_def ann_def noFields_def saveEditedStudent_def updateStudentList_def)
  moreover have "filter (matchesTerm ''an'') (allstudents (saveEditedStudent ''1'' bo (initialState [ann]))) = []"
    using no_match
    by (simp add: initialState_def ann_def noFields_def saveEditedStudent_def updateStudentList_def)
  ultimately show ?thesis by blast
qed

text \<open>
  Claim C7, as the code has it. \<open>currentStudent\<close> is the record as it was when it was
  selected: \<open>saveEditedStudent\<close> does not touch it, so after \<open>edit(id, input)\<close> it still holds
  the content from before the edit. Selecting the id again after the edit, for an input
  without \<open>_id\<close> and an id that \<open>allstudents\<close> holds, yields \<open>{ _id: id, ...input }\<close>.
\<close>

theorem currentStudent_is_snapshot:
  "currentStudent (saveEditedStudent i input s) = currentStudent s
   \<and> (student_id input = None \<and> Some i \<in> student_id ` set (allstudents s) \<longrightarrow>
        currentStudent (selectedStudent i (saveEditedStudent i input s))
          = Some (input\<lparr>student_id := Some i\<rparr>))"
  by (simp add: saveEditedStudent_def selectedStudent_def find_updateStudentList)

theorem currentStudent_is_snapshot_witness:
  "student_id annie = None
   \<and> Some ''1'' \<in> student_id ` set (allstudents annSelected)
   \<and> currentStudent (saveEditedStudent ''1'' annie annSelected) = Some ann
   \<and> currentStudent (selectedStudent ''1'' (saveEditedStudent ''1'' annie annSelected))
       = Some (annie\<lparr>student_id := Some ''1''\<rparr>)"
proof -
  have h1: "student_id annie = None" by (simp add: example_defs)
  have h2: "Some ''1'' \<in> student_id ` set (allstudents annSelected)"
    by (simp add: example_defs)
  have cur: "currentStudent annSelected = Some ann" by (simp add: annSelected_def)
  from currentStudent_is_snapshot [of "''1''" annie annSelected] h1 h2 cur
  have "currentStudent (saveEditedStudent ''1'' annie annSelected) = Some ann"
    and "currentStudent (selectedStudent ''1'' (saveEditedStudent ''1'' annie annSelected))
           = Some (annie\<lparr>student_id := Some ''1''\<rparr>)"
    by simp_all
  with h1 h2 show ?thesis by blast
qed

text \<open>
  The claim as written fails: with \<open>ann\<close> selected, the edit of record \<open>1\<close> to \<open>annie\<close> leaves
  \<open>currentStudent\<close> at \<open>ann\<close>, which is not the edited content.
\<close>

theorem selection_after_edit_counterexample:
  "selectedStudent ''1'' (initialState [ann]) = annSelected
   \<and> currentStudent annSelected = Some ann
   \<and> student_id ann = Some ''1''
   \<and> student_id annie = None
   \<and> currentStudent (saveEditedStudent ''1'' annie annSelected) = Some ann
   \<and> currentStudent (saveEditedStudent ''1'' annie annSelected) \<noteq> Some (spread_id ''1'' annie)"
  by (simp add: example_defs reducer_defs)

section \<open>Removing a record\<close>

text \<open>
  Claim C9. \<open>remove(id)\<close> keeps, in \<open>allstudents\<close> and in \<open>filteredstudents\<close>, the records
  whose id is not the given one, in order, so that no record with the id is left in either
  view, and it does not change \<open>currentStudent\<close>. In every state the store reaches, an id
  that \<open>allstudents\<close> does not hold makes it leave the whole state as it was. Removing
  twice is removing once.
\<close>

theorem deleteStudent_removes_idempotent:
  "allstudents (deleteStudent i s) = filter (\<lambda>r. student_id r \<noteq> Some i) (allstudents s)
   \<and> filteredstudents (deleteStudent i s)
       = filter (\<lambda>r. student_id r \<noteq> Some i) (filteredstudents s)
   \<and> currentStudent (deleteStudent i s) = currentStudent s
   \<and> Some i \<notin> student_id ` set (allstudents (deleteStudent i s))
   \<and> Some i \<notin> student_id ` set (filteredstudents (deleteStudent i s))
   \<and> (Some i \<notin> student_id ` set (allstudents (run acts (initialState dummyData))) \<longrightarrow>
        deleteStudent i (run acts (initialState dummyData)) = run acts (initialState dummyData))
   \<and> deleteStudent i (deleteStudent i s) = deleteStudent i s"
proof (intro conjI impI)
  assume "Some i \<notin> student_id ` set (allstudents (run acts (initialState dummyData)))"
  then show "deleteStudent i (run acts (initialState dummyData)) = run acts (initialState dummyData)"
    by (rule deleteStudent_absent [OF _ reachable_filtered_subset])
qed (auto simp: deleteStudent_def)

theorem deleteStudent_removes_idempotent_witness:
  "allstudents (deleteStudent ''1'' (initialState [ann, spread_id ''u2'' bo])) = [spread_id ''u2'' bo]
   \<and> filteredstudents (deleteStudent ''1'' (initialState [ann, spread_id ''u2'' bo]))
       = [spread_id ''u2'' bo]
   \<and> Some ''7'' \<notin> student_id ` set
        (allstudents (run [SearchStudents ''zz'', AddNewStudent ''u2'' bo] (initialState [ann])))
   \<and> deleteStudent ''7'' (run [SearchStudents ''zz'', AddNewStudent ''u2'' bo] (initialState [ann]))
       = run [SearchStudents ''zz'', AddNewStudent ''u2'' bo] (initialState [ann])
   \<and> deleteStudent ''1'' (deleteStudent ''1'' (initialState [ann, spread_id ''u2'' bo]))
       = deleteStudent ''1'' (initialState [ann, spread_id ''u2'' bo])"
proof -
  let ?acts = "[SearchStudents ''zz'', AddNewStudent ''u2'' bo]"
  let ?s = "initialState [ann, spread_id ''u2'' bo]"
  have absent: "Some ''7'' \<notin> student_id ` set (allstudents (run ?acts (initialState [ann])))"
    by (simp add: example_defs reducer_defs lower_defs)
  note thm1 = deleteStudent_removes_idempotent [of "''1''" ?s]
  from thm1 have "allstudents (deleteStudent ''1'' ?s)
      = filter (\<lambda>r. student_id r \<noteq> Some ''1'') (allstudents ?s)"
    and "filteredstudents (deleteStudent ''1'' ?s)
      = filter (\<lambda>r. student_id r \<noteq> Some ''1'') (filteredstudents ?s)"
    and idem: "deleteStudent ''1'' (deleteStudent ''1'' ?s) = deleteStudent ''1'' ?s"
    by blast+
  then have removed: "allstudents (deleteStudent ''1'' ?s) = [spread_id ''u2'' bo]"
    "filteredstudents (deleteStudent ''1'' ?s) = [spread_id ''u2'' bo]"
    by (simp_all add: example_defs spread_id_def)
  from deleteStudent_removes_idempotent [of "''7''" _ ?acts "[ann]"] absent
  have "deleteStudent ''7'' (run ?acts (initialState [ann])) = run ?acts (initialState [ann])"
    by blast
  with removed idem absent show ?thesis by blast
qed

section \<open>Invariants of the store\<close>

text \<open>
  Claim C6. In every state that the store reaches from its initial state by any sequence of
  the six actions, \<open>filteredstudents\<close> is a subsequence of \<open>allstudents\<close>: its records occur in
  \<open>allstudents\<close> in the same order.
\<close>

theorem filtered_subseq_all:
  "subseq (filteredstudents (run acts (initialState dummyData)))
     (allstudents (run acts (initialState dummyData)))"
  by (rule run_subseq [OF initialState_subseq])

theorem filtered_subseq_all_witness:
  "run [SearchStudents ''zz'', AddNewStudent ''u2'' bo, SaveEditedStudent ''1'' annie]
       (initialState [ann])
     = \<lparr>filteredstudents = [spread_id ''u2'' bo],
        allstudents = [spread_id ''1'' annie, spread_id ''u2'' bo], currentStudent = None\<rparr>
   \<and> subseq [spread_id ''u2'' bo] [spread_id ''1'' annie, spread_id ''u2'' bo]"
proof -
  let ?acts = "[SearchStudents ''zz'', AddNewStudent ''u2'' bo, SaveEditedStudent ''1'' annie]"
  have r: "run ?acts (initialState [ann])
     = \<lparr>filteredstudents = [spread_id ''u2'' bo],
        allstudents = [spread_id ''1'' annie, spread_id ''u2'' bo], currentStudent = None\<rparr>"
    by (simp add: example_defs reducer_defs lower_defs)
  from filtered_subseq_all [of ?acts "[ann]"] r show ?thesis by simp
qed

section \<open>An id in the payload\<close>

text \<open>
  Claim C10. A payload with an \<open>_id\<close> keeps it: \<open>add\<close> stores the payload as it is, with its
  own id and not the generated token, and \<open>edit\<close> replaces the records that carry the id it
  was called with by the input as it is, with the input's id. So ids stay distinct and fixed
  only for payloads without \<open>_id\<close>: adding \<open>bo\<close> with \<open>_id\<close> \<open>1\<close> to a collection that holds id
  \<open>1\<close>, under the fresh token \<open>u2\<close>, gives two records with id \<open>1\<close>, and editing record \<open>1\<close>
  with an input whose \<open>_id\<close> is \<open>9\<close> turns its id into \<open>9\<close>.
\<close>

theorem payload_id_overrides:
  "(student_id p = Some j \<longrightarrow>
      allstudents (addNewStudent u p s) = allstudents s @ [p]
      \<and> student_id (last (allstudents (addNewStudent u p s))) = Some j)
   \<and> (student_id input = Some j \<longrightarrow>
      allstudents (saveEditedStudent i input s)
        = map (\<lambda>r. if student_id r = Some i then input else r) (allstudents s))
   \<and> (distinct (ids (allstudents (initialState [ann])))
      \<and> ''u2'' \<notin> set (ids (allstudents (initialState [ann])))
      \<and> \<not> distinct (ids (allstudents
            (addNewStudent ''u2'' (bo\<lparr>student_id := Some ''1''\<rparr>) (initialState [ann])))))
   \<and> (ids (allstudents (initialState [ann])) = [''1'']
      \<and> ids (allstudents
            (saveEditedStudent ''1'' (bo\<lparr>student_id := Some ''9''\<rparr>) (initialState [ann])))
           = [''9''])"
proof (intro conjI impI)
  assume "student_id p = Some j"
  then show "allstudents (addNewStudent u p s) = allstudents s @ [p]"
    and "student_id (last (allstudents (addNewStudent u p s))) = Some j"
    by (simp_all add: addNewStudent_def Let_def spread_id_own_id)
next
  assume "student_id input = Some j"
  then show "allstudents (saveEditedStudent i input s)
        = map (\<lambda>r. if student_id r = Some i then input else r) (allstudents s)"
    by (simp add: saveEditedStudent_def updateStudentList_with_id)
qed (simp_all add: example_defs spec_defs reducer_defs)

theorem payload_id_overrides_witness:
  "student_id (bo\<lparr>student_id := Some ''1''\<rparr>) = Some ''1''
   \<and> allstudents (addNewStudent ''u2'' (bo\<lparr>student_id := Some ''1''\<rparr>) (initialState [ann]))
       = [ann, bo\<lparr>student_id := Some ''1''\<rparr>]
   \<and> student_id (bo\<lparr>student_id := Some ''9''\<rparr>) = Some ''9''
   \<and> allstudents (saveEditedStudent ''1'' (bo\<lparr>student_id := Some ''9''\<rparr>) (initialState [ann]))
       = [bo\<lparr>student_id := Some ''9''\<rparr>]"
proof -
  let ?p = "bo\<lparr>student_id := Some ''1''\<rparr>"
  let ?q = "bo\<lparr>student_id := Some ''9''\<rparr>"
  have h1: "student_id ?p = Some ''1''" by simp
  have h2: "student_id ?q = Some ''9''" by simp
  from payload_id_overrides [where p = ?p and j = "''1''" and u = "''u2''" and s = "initialState [ann]"] h1
  have "allstudents (addNewStudent ''u2'' ?p (initialState [ann]))
          = allstudents (initialState [ann]) @ [?p]"
    by blast
  then have added: "allstudents (addNewStudent ''u2'' ?p (initialState [ann])) = [ann, ?p]"
    by (simp add: initialState_def)
  from payload_id_overrides [where input = ?q and j = "''9''" and i = "''1''" and s = "initialState [ann]"] h2
  have "allstudents (saveEditedStudent ''1'' ?q (initialState [ann]))
          = map (\<lambda>r. if student_id r = Some ''1'' then ?q else r) (allstudents (initialState [ann]))"
    by blast
  then have edited: "allstudents (saveEditedStudent ''1'' ?q (initialState [ann])) = [?q]"
    by (simp add: initialState_def ann_def noFields_def)
  from h1 h2 added edited show ?thesis by blast
qed


end
